theory Spec2Isabelle
  imports Main "HOL-Library.Char_ord" "HOL-Library.List_Lexorder" "HOL-Library.Multiset"
begin

section \<open>Strings of the host language\<close>

text \<open>
  A string is a list of code units (\<^typ>\<open>string\<close>); the model covers the code units
  0 to 255.  In this range \<open>toLowerCase\<close> adds 32 to the letters A to Z and to the
  accented capital letters 0xC0 to 0xDE (0xD7, the multiplication sign, is not a letter) and
  leaves every other code unit alone; only the letters t, r, u, e, in either case, are
  mapped to t, r, u, e, so the comparison with the literal \<open>true\<close> is exact.  The regular
  expression class \<open>\s\<close> holds, in this range, tab, line feed, vertical tab, form feed,
  carriage return, space and the no-break space.
\<close>

definition lowerChar :: "char \<Rightarrow> char" where
  "lowerChar c =
     (if (CHR ''A'' \<le> c \<and> c \<le> CHR ''Z'') \<or> (CHR 0xC0 \<le> c \<and> c \<le> CHR 0xDE \<and> c \<noteq> CHR 0xD7)
      then char_of (of_char c + (32::nat)) else c)"

definition toLowerCase :: "string \<Rightarrow> string" where
  "toLowerCase s = map lowerChar s"

definition isWhitespace :: "char \<Rightarrow> bool" where
  "isWhitespace c \<longleftrightarrow>
     c \<in> set [CHR 0x09, CHR 0x0A, CHR 0x0B, CHR 0x0C, CHR 0x0D, CHR '' '', CHR 0xA0]"

text \<open>\<^verbatim>\<open>when.replace(/\s/g, '')\<close>\<close>

definition removeWhitespace :: "string \<Rightarrow> string" where
  "removeWhitespace s = filter (\<lambda>c. \<not> isWhitespace c) s"

text \<open>
  \<^verbatim>\<open>s.split('&&')\<close>: the string is scanned from the left; each occurrence of the
  separator closes the current piece and the scan goes on behind it.  The first argument is
  the piece read so far.
\<close>

fun splitLoop :: "string \<Rightarrow> string \<Rightarrow> string list" where
  "splitLoop cur [] = [cur]"
| "splitLoop cur [c] = [cur @ [c]]"
| "splitLoop cur (c # d # cs) =
     (if c = CHR ''&'' \<and> d = CHR ''&'' then cur # splitLoop [] cs
      else splitLoop (cur @ [c]) (d # cs))"

definition splitAnd :: "string \<Rightarrow> string list" where
  "splitAnd s = splitLoop [] s"

text \<open>\<^verbatim>\<open>xs.join(sep)\<close>\<close>

fun joinWith :: "string \<Rightarrow> string list \<Rightarrow> string" where
  "joinWith sep [] = []"
| "joinWith sep [x] = x"
| "joinWith sep (x # y # ys) = x @ sep @ joinWith sep (y # ys)"

text \<open>\<^verbatim>\<open>xs.indexOf(x)\<close>: the first index holding \<open>x\<close>, or -1.\<close>

fun indexOfFrom :: "nat \<Rightarrow> 'a list \<Rightarrow> 'a \<Rightarrow> int" where
  "indexOfFrom i [] x = - 1"
| "indexOfFrom i (y # ys) x = (if y = x then int i else indexOfFrom (Suc i) ys x)"

definition indexOf :: "'a list \<Rightarrow> 'a \<Rightarrow> int" where
  "indexOf xs x = indexOfFrom 0 xs x"

text \<open>A number in a template string: its decimal digits.\<close>

function toDecimal :: "nat \<Rightarrow> string" where
  "toDecimal n =
     (if n < 10 then [char_of (48 + n)]
      else toDecimal (n div 10) @ [char_of (48 + n mod 10)])"
  by pat_completeness auto
termination
  by (relation "measure id") auto

declare toDecimal.simps [simp del]

section \<open>The when clause\<close>

record selectedOption =
  sel_option :: string
  sel_value :: string

text \<open>The template \<^verbatim>\<open>`${option.option}=${option.value}`\<close>.\<close>

definition formatSelected :: "selectedOption \<Rightarrow> string" where
  "formatSelected s = sel_option s @ ''='' @ sel_value s"

text \<open>The loop over the expected clauses, which returns false at the first missing one.\<close>

fun clausesLoop :: "string list \<Rightarrow> string list \<Rightarrow> bool" where
  "clausesLoop [] actual = True"
| "clausesLoop (whenClause # rest) actual =
     (if indexOf actual whenClause = - 1 then False else clausesLoop rest actual)"

definition processWhenClause :: "string option \<Rightarrow> selectedOption list \<Rightarrow> bool" where
  "processWhenClause w selectedOptions =
     (case w of
        None \<Rightarrow> True
      | Some s \<Rightarrow>
          if toLowerCase s = ''true'' then True
          else
            (let expected = sort (splitAnd (removeWhitespace s));
                 actual = map formatSelected selectedOptions
             in clausesLoop expected actual))"

section \<open>Resource types and their providers\<close>

record NotebookPathInfo =
  darwin :: "string option"
  win32 :: "string option"
  linux :: "string option"

record NotebookInfo =
  nb_path :: string

datatype notebookRef =
    NotebookString string
  | NotebookArray "NotebookInfo list"
  | NotebookPaths NotebookPathInfo

record objWithNotebookProperty =
  notebook :: "notebookRef option"

record ToolRequirement =
  tool_name :: string

text \<open>
  Modelled from the spec: the provider interfaces and their shape predicates
  (\<^verbatim>\<open>instanceOf...DeploymentProvider\<close>, imported from \<^verbatim>\<open>../interfaces\<close>) are not
  among the sources.  The spec gives a provider as a tagged union over wizard,
  notebook-wizard, dialog, notebook, download, web-page, command, azure-SQL-VM-wizard and
  azure-SQL-DB-wizard, with exactly one shape per tag, each carrying a when clause; a
  contributed object of no recognised shape is \<open>NoMethod\<close>.  The payload is the property
  the code reads in each branch.
\<close>

datatype deploymentMethod =
    BdcWizard objWithNotebookProperty
  | NotebookWizardMethod objWithNotebookProperty
  | Dialog objWithNotebookProperty
  | Notebook notebookRef
  | Download string
  | WebPage string
  | Command string
  | AzureSQLVMWizard objWithNotebookProperty
  | AzureSQLDBWizard objWithNotebookProperty
  | NoMethod

record DeploymentProvider =
  provider_when :: "string option"
  requiredTools :: "ToolRequirement list"
  provider_method :: deploymentMethod

record Icon =
  dark :: string
  light :: string

record OptionValue =
  ov_name :: string
  ov_displayName :: string

record ResourceTypeOption =
  opt_name :: string
  opt_displayName :: string
  opt_values :: "OptionValue list"

record OkButtonText =
  okb_when :: "string option"
  okb_value :: string

record ResourceType =
  rt_name :: string
  rt_displayName :: string
  icon :: "Icon option"
  options :: "ResourceTypeOption list"
  providers :: "DeploymentProvider list"
  okButtonText :: "OkButtonText list option"

text \<open>
  \<open>getProvider\<close>: the loop \<^verbatim>\<open>for (let i = 0; i < providers.length; i++)\<close> with its
  return from inside.
\<close>

function getProviderLoop ::
  "nat \<Rightarrow> DeploymentProvider list \<Rightarrow> selectedOption list \<Rightarrow> DeploymentProvider option" where
  "getProviderLoop i ps selectedOptions =
     (if i < length ps then
        (let provider = ps ! i
         in if processWhenClause (provider_when provider) selectedOptions then Some provider
            else getProviderLoop (Suc i) ps selectedOptions)
      else None)"
  by pat_completeness auto
termination
  by (relation "measure (\<lambda>(i, ps, _). length ps - i)") auto

declare getProviderLoop.simps [simp del]

definition getProvider :: "ResourceType \<Rightarrow> selectedOption list \<Rightarrow> DeploymentProvider option" where
  "getProvider resourceType selectedOptions =
     getProviderLoop 0 (providers resourceType) selectedOptions"

text \<open>
  Modelled from the spec: \<^verbatim>\<open>loc.select\<close> comes from the localized constants, which are
  not among the sources; the default text of the button is \<open>Select\<close>.
\<close>

definition loc_select :: string where
  "loc_select = ''Select''"

text \<open>
  \<open>getOkButtonText\<close>, declared to return \<^verbatim>\<open>string | undefined\<close>: \<open>None\<close> stands for
  undefined.
\<close>

fun okButtonLoop :: "OkButtonText list \<Rightarrow> selectedOption list \<Rightarrow> string option" where
  "okButtonLoop [] selectedOptions = None"
| "okButtonLoop (possibleOption # rest) selectedOptions =
     (if processWhenClause (okb_when possibleOption) selectedOptions
      then Some (okb_value possibleOption)
      else okButtonLoop rest selectedOptions)"

definition getOkButtonText :: "ResourceType \<Rightarrow> selectedOption list \<Rightarrow> string option" where
  "getOkButtonText resourceType selectedOptions =
     (case okButtonText resourceType of
        None \<Rightarrow> Some loc_select
      | Some rules \<Rightarrow>
          (case okButtonLoop rules selectedOptions of
             Some v \<Rightarrow> Some v
           | None \<Rightarrow> Some loc_select))"

section \<open>Rewriting notebook paths\<close>

text \<open>
  A property used as a condition is true when it is present and not the empty string.
  \<open>whenTruthy v f d\<close> is \<open>f s\<close> for such a value \<open>s\<close> and \<open>d\<close> otherwise.
\<close>

definition whenTruthy :: "string option \<Rightarrow> (string \<Rightarrow> 'a) \<Rightarrow> 'a \<Rightarrow> 'a" where
  "whenTruthy v f d = (case v of None \<Rightarrow> d | Some s \<Rightarrow> if s = [] then d else f s)"

text \<open>
  \<open>updateNotebookPath\<close> mutates the object it is given; the model returns the object
  after the call.  \<^verbatim>\<open>path.join\<close> belongs to the runtime and is the parameter
  \<open>pathJoin\<close>.  The three conditions of the last branch run one after the other on the
  object as the earlier ones left it; the third replaces the whole \<open>notebook\<close> property.
\<close>

definition updateNotebookPath ::
  "(string \<Rightarrow> string \<Rightarrow> string) \<Rightarrow> objWithNotebookProperty option \<Rightarrow> string
     \<Rightarrow> objWithNotebookProperty option" where
  "updateNotebookPath pathJoin objWithNotebookProperty extensionPath =
     (case objWithNotebookProperty of
        None \<Rightarrow> None
      | Some obj \<Rightarrow>
          (case notebook obj of
             None \<Rightarrow> Some obj
           | Some (NotebookString s) \<Rightarrow>
               if s = [] then Some obj
               else Some (obj\<lparr>notebook := Some (NotebookString (pathJoin extensionPath s))\<rparr>)
           | Some (NotebookArray nbs) \<Rightarrow>
               Some (obj\<lparr>notebook := Some (NotebookArray
                 (map (\<lambda>nb. nb\<lparr>nb_path := pathJoin extensionPath (nb_path nb)\<rparr>) nbs))\<rparr>)
           | Some (NotebookPaths p0) \<Rightarrow>
               (let p1 = whenTruthy (darwin p0)
                           (\<lambda>d. p0\<lparr>darwin := Some (pathJoin extensionPath d)\<rparr>) p0;
                    p2 = whenTruthy (win32 p1)
                           (\<lambda>w. p1\<lparr>darwin := Some (pathJoin extensionPath w)\<rparr>) p1
                in whenTruthy (linux p2)
                     (\<lambda>l. Some (obj\<lparr>notebook := Some (NotebookString (pathJoin extensionPath l))\<rparr>))
                     (Some (obj\<lparr>notebook := Some (NotebookPaths p2)\<rparr>)))))"

section \<open>Starting a deployment\<close>

text \<open>
  The user interface is outside the sources: constructing a wizard or a dialog and opening
  it, opening a notebook, starting the background download and running a host command are
  the actions the dispatcher performs, in order.
\<close>

datatype uiAction =
    OpenDeployAzureSQLVMWizard "ResourceType option"
  | OpenDeployAzureSQLDBWizard "ResourceType option"
  | OpenDeployClusterWizard objWithNotebookProperty "ResourceType option"
  | OpenNotebookWizard "ResourceType option"
  | OpenDeploymentInputDialog objWithNotebookProperty
  | OpenNotebook notebookRef
  | StartBackgroundOperation string
  | ExecuteCommand string "string list"

text \<open>\<^verbatim>\<open>resourceType?.providers[0]\<close>: undefined without a resource type or a provider.\<close>

definition firstProvider :: "ResourceType option \<Rightarrow> DeploymentProvider option" where
  "firstProvider resourceType =
     (case resourceType of
        None \<Rightarrow> None
      | Some rt \<Rightarrow> (case providers rt of [] \<Rightarrow> None | p # _ \<Rightarrow> Some p))"

definition startDeployment :: "ResourceType option \<Rightarrow> uiAction list" where
  "startDeployment resourceType =
     (case map_option provider_method (firstProvider resourceType) of
        Some (AzureSQLVMWizard _) \<Rightarrow> [OpenDeployAzureSQLVMWizard resourceType]
      | Some (AzureSQLDBWizard _) \<Rightarrow> [OpenDeployAzureSQLDBWizard resourceType]
      | Some (BdcWizard w) \<Rightarrow> [OpenDeployClusterWizard w resourceType]
      | _ \<Rightarrow> [OpenNotebookWizard resourceType])"

definition startDeploymentFromWizard ::
  "DeploymentProvider \<Rightarrow> ResourceType option \<Rightarrow> uiAction list" where
  "startDeploymentFromWizard provider resourceType =
     (case provider_method provider of
        BdcWizard w \<Rightarrow> [OpenDeployClusterWizard w resourceType]
      | Dialog d \<Rightarrow> [OpenDeploymentInputDialog d]
      | Notebook n \<Rightarrow> [OpenNotebook n]
      | Download downloadUrl \<Rightarrow> [StartBackgroundOperation downloadUrl]
      | WebPage webPageUrl \<Rightarrow> [ExecuteCommand ''vscode.open'' [webPageUrl]]
      | Command command \<Rightarrow> [ExecuteCommand command []]
      | _ \<Rightarrow> [])"

section \<open>Validation of resource types\<close>

text \<open>
  All validators push onto one array of messages; each takes the array and returns it with
  its messages appended.  A name is missing when it is the empty string.  A
  \<^verbatim>\<open>forEach\<close> that counts its elements from 1 in a variable beside it is
  \<open>forEachIndexed\<close>, started at 1.
\<close>

fun forEachIndexed :: "('a \<Rightarrow> nat \<Rightarrow> 's \<Rightarrow> 's) \<Rightarrow> 'a list \<Rightarrow> nat \<Rightarrow> 's \<Rightarrow> 's" where
  "forEachIndexed body [] index s = s"
| "forEachIndexed body (x # xs) index s = forEachIndexed body xs (index + 1) (body x index s)"

definition validateNameDisplayName ::
  "string \<Rightarrow> string \<Rightarrow> string \<Rightarrow> string \<Rightarrow> string list \<Rightarrow> string list" where
  "validateNameDisplayName name displayName type positionInfo errorMessages =
     (let e1 = (if name = []
                then errorMessages @ [''Name of the '' @ type @ '' is empty.'' @ positionInfo @ '' '']
                else errorMessages)
      in if displayName = []
         then e1 @ [''Display name of the '' @ type @ '' is empty.'' @ positionInfo @ '' '']
         else e1)"

text \<open>The inner loop over \<open>j\<close>, collecting the 1-based positions of the duplicates.\<close>

function dupeLoop :: "OptionValue list \<Rightarrow> nat \<Rightarrow> nat \<Rightarrow> nat list \<Rightarrow> nat list" where
  "dupeLoop vs i j dupePositions =
     (if j < length vs then
        dupeLoop vs i (j + 1)
          (if ov_name (vs ! i) = ov_name (vs ! j)
              \<or> ov_displayName (vs ! i) = ov_displayName (vs ! j)
           then dupePositions @ [j + 1] else dupePositions)
      else dupePositions)"
  by pat_completeness auto
termination
  by (relation "measure (\<lambda>(vs, i, j, _). length vs - j)") auto

declare dupeLoop.simps [simp del]

definition dupeMessage :: "nat \<Rightarrow> nat list \<Rightarrow> string \<Rightarrow> string" where
  "dupeMessage i dupePositions positionInfo =
     ''Option values with same name or display name are found at the following positions: ''
       @ toDecimal (i + 1) @ '', '' @ joinWith '','' (map toDecimal dupePositions)
       @ ''.'' @ positionInfo @ '' ''"

text \<open>The outer loop over \<open>i\<close>.\<close>

function uniqueLoop :: "OptionValue list \<Rightarrow> string \<Rightarrow> nat \<Rightarrow> string list \<Rightarrow> string list" where
  "uniqueLoop vs positionInfo i errorMessages =
     (if i < length vs then
        uniqueLoop vs positionInfo (i + 1)
          (if ov_name (vs ! i) \<noteq> [] \<and> ov_displayName (vs ! i) \<noteq> [] then
             (let dupePositions = dupeLoop vs i (i + 1) []
              in if length dupePositions \<noteq> 0
                 then errorMessages @ [dupeMessage i dupePositions positionInfo]
                 else errorMessages)
           else errorMessages)
      else errorMessages)"
  by pat_completeness auto
termination
  by (relation "measure (\<lambda>(vs, _, i, _). length vs - i)") auto

declare uniqueLoop.simps [simp del]

definition validateResourceTypeOption ::
  "ResourceTypeOption \<Rightarrow> string \<Rightarrow> string list \<Rightarrow> string list" where
  "validateResourceTypeOption option positionInfo errorMessages =
     (let e1 = validateNameDisplayName (opt_name option) (opt_displayName option)
                 ''option'' positionInfo errorMessages
      in if opt_values option = []
         then e1 @ [''Option contains no values.'' @ positionInfo @ '' '']
         else
           (let e2 = forEachIndexed
                       (\<lambda>optionValue optionValueIndex.
                          validateNameDisplayName (ov_name optionValue) (ov_displayName optionValue)
                            ''option value''
                            (positionInfo @ '', option value index: ''
                               @ toDecimal optionValueIndex @ '' ''))
                       (opt_values option) 1 e1
            in uniqueLoop (opt_values option) positionInfo 0 e2))"

text \<open>
  The tools service is outside the sources: \<open>getToolByName\<close> tells whether a tool of
  that name exists.
\<close>

definition validateProvider ::
  "(string \<Rightarrow> bool) \<Rightarrow> string \<Rightarrow> DeploymentProvider \<Rightarrow> nat \<Rightarrow> string list \<Rightarrow> string list" where
  "validateProvider getToolByName positionInfo provider providerIndex errorMessages =
     (let providerPositionInfo =
            positionInfo @ '', provider index: '' @ toDecimal providerIndex @ '' '';
          e1 = (if provider_method provider = NoMethod
                then errorMessages
                       @ [''No deployment method defined for the provider, '' @ providerPositionInfo]
                else errorMessages)
      in foldl (\<lambda>e tool.
                  if \<not> getToolByName (tool_name tool)
                  then e @ [''The tool is not supported: '' @ tool_name tool @ '', ''
                              @ providerPositionInfo @ '' '']
                  else e)
           e1 (requiredTools provider))"

definition validateProviders ::
  "(string \<Rightarrow> bool) \<Rightarrow> ResourceType \<Rightarrow> string \<Rightarrow> string list \<Rightarrow> string list" where
  "validateProviders getToolByName resourceType positionInfo errorMessages =
     (if providers resourceType = []
      then errorMessages @ [''No providers defined for resource type, '' @ positionInfo]
      else forEachIndexed (validateProvider getToolByName positionInfo)
             (providers resourceType) 1 errorMessages)"

definition validateResourceType ::
  "(string \<Rightarrow> bool) \<Rightarrow> ResourceType \<Rightarrow> string \<Rightarrow> string list \<Rightarrow> string list" where
  "validateResourceType getToolByName resourceType positionInfo errorMessages =
     (let e1 = validateNameDisplayName (rt_name resourceType) (rt_displayName resourceType)
                 ''resource type'' positionInfo errorMessages;
          e2 = (if (case icon resourceType of
                      None \<Rightarrow> True
                    | Some ic \<Rightarrow> dark ic = [] \<or> light ic = [])
                then e1 @ [''Icon for resource type is not specified properly. ''
                             @ positionInfo @ '' '']
                else e1);
          e3 = forEachIndexed
                 (\<lambda>option optionIndex.
                    validateResourceTypeOption option
                      (positionInfo @ '', option index: '' @ toDecimal optionIndex @ '' ''))
                 (options resourceType) 1 e2
      in validateProviders getToolByName resourceType positionInfo e3)"

definition validateResourceTypes :: "(string \<Rightarrow> bool) \<Rightarrow> ResourceType list \<Rightarrow> string list" where
  "validateResourceTypes getToolByName resourceTypes =
     (if resourceTypes = [] then [''Resource type list is empty'']
      else forEachIndexed
             (\<lambda>resourceType resourceTypeIndex.
                validateResourceType getToolByName resourceType
                  (''resource type index: '' @ toDecimal resourceTypeIndex))
             resourceTypes 1 [])"

section \<open>Download\<close>

text \<open>
  What \<open>download\<close> reads from outside: the server's answer to a request, the home
  directory, the path functions of the runtime, and how writing the response into the new
  file ends (\<open>None\<close> for the finish event, an error message otherwise).  The files that
  exist are a set of paths, passed in and returned.
\<close>

record httpResponse =
  statusCode :: nat
  statusMessage :: string
  location :: string

record downloadEnv =
  httpsGet :: "string \<Rightarrow> httpResponse"
  homedir :: string
  pathJoin :: "string \<Rightarrow> string \<Rightarrow> string"
  extname :: "string \<Rightarrow> string"
  basename :: "string \<Rightarrow> string \<Rightarrow> string"
  writeError :: "string \<Rightarrow> string option"

datatype settled = Resolved string | Rejected string

text \<open>
  The message \<^verbatim>\<open>"Download failed, status code: {0}, message: {1}"\<close> with its two
  arguments filled in.
\<close>

definition downloadError :: "nat \<Rightarrow> string \<Rightarrow> string" where
  "downloadError code message =
     ''Download failed, status code: '' @ toDecimal code @ '', message: '' @ message"

text \<open>
  The loop \<^verbatim>\<open>while (await exists(path.join(downloadFolder, fileName + extension)))\<close>;
  it has no bound, so it is a partial function and \<open>None\<close> means that it never ends.
\<close>

partial_function (option) probeLoop ::
  "(string \<Rightarrow> bool) \<Rightarrow> string \<Rightarrow> string \<Rightarrow> string \<Rightarrow> nat \<Rightarrow> string option" where
  "probeLoop existsIn originalFileName extension fileName cnt =
     (if existsIn (fileName @ extension)
      then probeLoop existsIn originalFileName extension
             (originalFileName @ ''-'' @ toDecimal cnt) (cnt + 1)
      else Some fileName)"

text \<open>
  The names the loop tries, in order: the base name, then the base name with -1, -2 and so
  on behind it.
\<close>

definition candidateName :: "string \<Rightarrow> nat \<Rightarrow> string" where
  "candidateName originalFileName k =
     (if k = 0 then originalFileName else originalFileName @ ''-'' @ toDecimal k)"

text \<open>The part of \<open>download\<close> behind the two status checks.\<close>

definition saveResponse ::
  "downloadEnv \<Rightarrow> string \<Rightarrow> string set \<Rightarrow> (settled \<times> string set) option" where
  "saveResponse env url files =
     (let extension = extname env url;
          originalFileName = basename env url extension;
          downloads = pathJoin env (homedir env) ''Downloads'';
          downloadFolder = (if downloads \<in> files then downloads else homedir env)
      in case probeLoop (\<lambda>name. pathJoin env downloadFolder name \<in> files)
                originalFileName extension originalFileName 1 of
           None \<Rightarrow> None
         | Some name \<Rightarrow>
             (let fileName = pathJoin env downloadFolder (name @ extension)
              in case writeError env fileName of
                   None \<Rightarrow> Some (Resolved fileName, insert fileName files)
                 | Some message \<Rightarrow> Some (Rejected message, files - {fileName})))"

text \<open>
  \<open>download\<close> follows a redirect by calling itself, without a bound: \<open>None\<close> means
  that the promise is never settled.
\<close>

partial_function (option) download ::
  "downloadEnv \<Rightarrow> string \<Rightarrow> string set \<Rightarrow> (settled \<times> string set) option" where
  "download env url files =
     (if statusCode (httpsGet env url) = 301 \<or> statusCode (httpsGet env url) = 302
      then download env (location (httpsGet env url)) files
      else if statusCode (httpsGet env url) \<noteq> 200
      then Some (Rejected (downloadError (statusCode (httpsGet env url))
                             (statusMessage (httpsGet env url))), files)
      else saveResponse env url files)"

section \<open>The loader of the flat account tree node\<close>

text \<open>
  \<open>start\<close> is asynchronous: it runs to its first \<^verbatim>\<open>await\<close> in one piece, and the
  rest of its body runs later, in pieces, between other calls.  The state is the loader's
  fields and the events fired so far; \<open>running\<close> counts the calls of \<open>start\<close> that have
  passed the guard and not yet reached the end of the body.
\<close>

datatype loaderEvent = LoadingStatusChanged | NewResourcesAvailable

record 'n loader =
  isLoading :: bool
  nodes :: "'n list"
  fired :: "loaderEvent list"
  running :: nat

definition newLoader :: "'n loader" where
  "newLoader = \<lparr>isLoading = False, nodes = [], fired = [], running = 0\<rparr>"

text \<open>The call of \<open>start\<close>, up to the first \<^verbatim>\<open>await\<close>.\<close>

definition start :: "'n loader \<Rightarrow> 'n loader" where
  "start s =
     (if isLoading s then s
      else s\<lparr>isLoading := True, nodes := [], fired := fired s @ [LoadingStatusChanged],
             running := running s + 1\<rparr>)"

text \<open>The timer fires the event for new resources.\<close>

definition refreshTick :: "'n loader \<Rightarrow> 'n loader" where
  "refreshTick s = s\<lparr>fired := fired s @ [NewResourcesAvailable]\<rparr>"

text \<open>A running load replaces the node list: more resources, sorted, or the error node.\<close>

definition setNodes :: "'n list \<Rightarrow> 'n loader \<Rightarrow> 'n loader" where
  "setNodes ns s = s\<lparr>nodes := ns\<rparr>"

text \<open>The end of the body of \<open>start\<close>.\<close>

definition finish :: "'n loader \<Rightarrow> 'n loader" where
  "finish s =
     s\<lparr>isLoading := False, fired := fired s @ [LoadingStatusChanged], running := running s - 1\<rparr>"

text \<open>The states the loader can be in: any interleaving of calls and pieces of loads.\<close>

inductive reachable :: "'n loader \<Rightarrow> bool" where
  initial: "reachable newLoader"
| called: "reachable s \<Longrightarrow> reachable (start s)"
| ticked: "reachable s \<Longrightarrow> reachable (refreshTick s)"
| progressed: "reachable s \<Longrightarrow> 0 < running s \<Longrightarrow> reachable (setNodes ns s)"
| finished: "reachable s \<Longrightarrow> 0 < running s \<Longrightarrow> reachable (finish s)"

section \<open>Sample inputs\<close>

definition pick :: "string \<Rightarrow> string \<Rightarrow> selectedOption" where
  "pick k v = \<lparr>sel_option = k, sel_value = v\<rparr>"

definition sampleProvider :: "deploymentMethod \<Rightarrow> DeploymentProvider" where
  "sampleProvider m = \<lparr>provider_when = Some ''true'', requiredTools = [], provider_method = m\<rparr>"

definition sampleOption :: ResourceTypeOption where
  "sampleOption =
     \<lparr>opt_name = ''o'', opt_displayName = ''O'',
      opt_values = [\<lparr>ov_name = ''x'', ov_displayName = ''X''\<rparr>,
                    \<lparr>ov_name = ''x'', ov_displayName = ''Y''\<rparr>]\<rparr>"

definition sampleResourceType :: "DeploymentProvider list \<Rightarrow> ResourceType" where
  "sampleResourceType ps =
     \<lparr>rt_name = ''r'', rt_displayName = ''R'',
      icon = Some \<lparr>dark = ''d.svg'', light = ''l.svg''\<rparr>,
      options = [sampleOption], providers = ps,
      okButtonText = Some [\<lparr>okb_when = Some ''a=1'', okb_value = ''Deploy''\<rparr>]\<rparr>"

definition twoAlwaysTrue :: ResourceType where
  "twoAlwaysTrue =
     sampleResourceType [sampleProvider (Command ''first''), sampleProvider (Command ''second'')]"

text \<open>A runtime with plain path functions, and a server that gives every request one answer.\<close>

definition lastSegment :: "string \<Rightarrow> string" where
  "lastSegment s = rev (takeWhile (\<lambda>c. c \<noteq> CHR ''/'') (rev s))"

definition sampleExtname :: "string \<Rightarrow> string" where
  "sampleExtname s =
     (let b = lastSegment s; e = rev (takeWhile (\<lambda>c. c \<noteq> CHR ''.'') (rev b))
      in if CHR ''.'' \<notin> set b \<or> length e + 1 = length b then [] else CHR ''.'' # e)"

definition sampleBasename :: "string \<Rightarrow> string \<Rightarrow> string" where
  "sampleBasename s ext =
     (let b = lastSegment s
      in if ext \<noteq> [] \<and> length ext < length b \<and> drop (length b - length ext) b = ext
         then take (length b - length ext) b else b)"

definition sampleEnv :: "nat \<Rightarrow> string \<Rightarrow> downloadEnv" where
  "sampleEnv code message =
     \<lparr>httpsGet = (\<lambda>url. \<lparr>statusCode = code, statusMessage = message, location = []\<rparr>),
      homedir = ''/home/u'',
      pathJoin = (\<lambda>a b. a @ ''/'' @ b),
      extname = sampleExtname,
      basename = sampleBasename,
      writeError = (\<lambda>file. None)\<rparr>"

section \<open>Properties of the when clause\<close>

lemma indexOfFrom_absent: "indexOfFrom i xs x = - 1 \<longleftrightarrow> x \<notin> set xs"
  by (induction xs arbitrary: i) auto

lemma indexOf_absent: "indexOf xs x = - 1 \<longleftrightarrow> x \<notin> set xs"
  by (simp add: indexOf_def indexOfFrom_absent)

lemma clausesLoop_iff: "clausesLoop cs actual \<longleftrightarrow> (\<forall>c\<in>set cs. c \<in> set actual)"
  by (induction cs) (auto simp: indexOf_absent)

lemma processWhenClause_Some:
  "processWhenClause (Some s) sel \<longleftrightarrow>
     toLowerCase s = ''true'' \<or>
     (\<forall>c\<in>set (splitAnd (removeWhitespace s)). c \<in> set (map formatSelected sel))"
  by (simp add: processWhenClause_def clausesLoop_iff Let_def)

lemma processWhenClause_None: "processWhenClause None sel"
  by (simp add: processWhenClause_def)

text \<open>
  Claim C1.  For every when clause and every list of selected options, also the empty one,
  \<open>processWhenClause\<close> returns true exactly when the clause is undefined, or its lower
  case form is the literal \<open>true\<close>, or every piece obtained by removing the whitespace
  and splitting at \<open>&&\<close> is one of the strings \<open>option=value\<close> formatted from the
  selected options; otherwise it returns false.
\<close>

theorem processWhenClause_spec:
  "processWhenClause w sel \<longleftrightarrow>
     w = None \<or>
     (\<exists>s. w = Some s \<and>
        (toLowerCase s = ''true'' \<or>
         (\<forall>c\<in>set (splitAnd (removeWhitespace s)). c \<in> set (map formatSelected sel))))"
  by (cases w) (simp_all add: processWhenClause_None processWhenClause_Some)

lemma amp_not_whitespace: "\<not> isWhitespace CHR ''&''"
  by (simp add: isWhitespace_def)

lemma removeWhitespace_append:
  "removeWhitespace (xs @ ys) = removeWhitespace xs @ removeWhitespace ys"
  by (simp add: removeWhitespace_def)

lemma removeWhitespace_Nil: "removeWhitespace [] = []"
  by (simp add: removeWhitespace_def)

lemma removeWhitespace_amp:
  "removeWhitespace (CHR ''&'' # s) = CHR ''&'' # removeWhitespace s"
  by (simp add: removeWhitespace_def amp_not_whitespace)

lemma removeWhitespace_join:
  "removeWhitespace (joinWith ''&&'' cs) = joinWith ''&&'' (map removeWhitespace cs)"
  by (induction "''&&''" cs rule: joinWith.induct)
     (simp_all add: removeWhitespace_append removeWhitespace_amp removeWhitespace_Nil)

lemma splitLoop_plain:
  "CHR ''&'' \<notin> set c \<Longrightarrow> splitLoop cur c = [cur @ c]"
  by (induction cur c rule: splitLoop.induct) auto

lemma splitLoop_clause:
  "CHR ''&'' \<notin> set c \<Longrightarrow> splitLoop cur (c @ ''&&'' @ rest) = (cur @ c) # splitLoop [] rest"
proof (induction c arbitrary: cur)
  case Nil
  then show ?case by simp
next
  case (Cons a c)
  then have a: "a \<noteq> CHR ''&''" and c: "CHR ''&'' \<notin> set c" by auto
  obtain d ds where e: "c @ ''&&'' @ rest = d # ds" by (cases c) auto
  have "splitLoop cur ((a # c) @ ''&&'' @ rest) = splitLoop (cur @ [a]) (c @ ''&&'' @ rest)"
    using a e by simp
  also have "\<dots> = ((cur @ [a]) @ c) # splitLoop [] rest"
    using Cons.IH [OF c] .
  finally show ?case by simp
qed

lemma splitAnd_join:
  "cs \<noteq> [] \<Longrightarrow> \<forall>c\<in>set cs. CHR ''&'' \<notin> set c \<Longrightarrow> splitAnd (joinWith ''&&'' cs) = cs"
proof (induction "''&&''" cs rule: joinWith.induct)
  case 1
  then show ?case by simp
next
  case (2 x)
  then show ?case by (simp add: splitAnd_def splitLoop_plain)
next
  case (3 x y ys)
  then have "splitAnd (joinWith ''&&'' (y # ys)) = y # ys" by simp
  moreover have "CHR ''&'' \<notin> set x" using 3 by simp
  ultimately show ?case
    using splitLoop_clause [of x "[]" "joinWith ''&&'' (y # ys)"]
    by (simp add: splitAnd_def)
qed

lemma lowerChar_amp: "lowerChar CHR ''&'' = CHR ''&''"
  by code_simp

lemma toLowerCase_true_no_amp:
  assumes "toLowerCase s = ''true''"
  shows "CHR ''&'' \<notin> set s"
proof
  assume "CHR ''&'' \<in> set s"
  then have "lowerChar CHR ''&'' \<in> set (toLowerCase s)"
    unfolding toLowerCase_def by (metis image_eqI set_map)
  then show False
    using assms by (simp add: lowerChar_amp)
qed

lemma amp_in_join: "CHR ''&'' \<in> set (joinWith ''&&'' (x # y # ys))"
  by simp

lemma join_not_true: "toLowerCase (joinWith ''&&'' (x # y # ys)) \<noteq> ''true''"
  using toLowerCase_true_no_amp amp_in_join by blast

lemma removeWhitespace_subset: "set (removeWhitespace c) \<subseteq> set c"
  by (simp add: removeWhitespace_def)

lemma whenClauses_join:
  assumes "cs \<noteq> []" and "\<forall>c\<in>set cs. CHR ''&'' \<notin> set c"
  shows "splitAnd (removeWhitespace (joinWith ''&&'' cs)) = map removeWhitespace cs"
proof -
  have "\<forall>c\<in>set (map removeWhitespace cs). CHR ''&'' \<notin> set c"
    using assms(2) removeWhitespace_subset by fastforce
  moreover have "map removeWhitespace cs \<noteq> []"
    using assms(1) by simp
  ultimately show ?thesis
    by (simp add: removeWhitespace_join splitAnd_join)
qed

lemma processWhenClause_join:
  assumes "\<forall>c\<in>set (x # y # ys). CHR ''&'' \<notin> set c"
  shows "processWhenClause (Some (joinWith ''&&'' (x # y # ys))) sel \<longleftrightarrow>
           (\<forall>c\<in>set (x # y # ys). removeWhitespace c \<in> set (map formatSelected sel))"
proof -
  have "splitAnd (removeWhitespace (joinWith ''&&'' (x # y # ys))) = map removeWhitespace (x # y # ys)"
    using assms by (intro whenClauses_join) simp_all
  then show ?thesis
    using join_not_true [of x y ys] by (simp add: processWhenClause_Some del: joinWith.simps)
qed

text \<open>
  Claim C2, as amended.  When no clause contains the character \<open>&\<close>, joining the
  clauses with \<open>&&\<close> in one order or in any other order gives when clauses with the
  same result, for every list of selected options.  Without the condition the equality
  fails: a clause that ends with \<open>&\<close> in front of one that starts with \<open>&\<close> is
  split differently once the two are exchanged.
\<close>

theorem processWhenClause_permute:
  assumes perm: "mset cs = mset ds"
    and amp: "\<forall>c\<in>set cs. CHR ''&'' \<notin> set c"
  shows "processWhenClause (Some (joinWith ''&&'' cs)) sel =
         processWhenClause (Some (joinWith ''&&'' ds)) sel"
proof -
  have sets: "set cs = set ds" using perm by (rule mset_eq_setD)
  have len: "length cs = length ds" using perm by (rule mset_eq_length)
  consider "cs = []" | x where "cs = [x]" | x y ys where "cs = x # y # ys"
    by (cases cs; cases "tl cs") auto
  then show ?thesis
  proof cases
    case 1
    then show ?thesis using len by simp
  next
    case 2
    then have "ds = [x]" using perm by simp
    then show ?thesis using 2 by simp
  next
    case 3
    obtain x' y' ys' where ds: "ds = x' # y' # ys'"
      using len 3 by (cases ds; cases "tl ds") auto
    have "\<forall>c\<in>set (x' # y' # ys'). CHR ''&'' \<notin> set c"
      using amp sets ds by simp
    then show ?thesis
      using amp sets unfolding 3 ds by (simp only: processWhenClause_join)
  qed
qed

lemma getProviderLoop_find:
  "getProviderLoop i ps sel = find (\<lambda>p. processWhenClause (provider_when p) sel) (drop i ps)"
proof (induction i ps sel rule: getProviderLoop.induct)
  case (1 i ps sel)
  show ?case
  proof (cases "i < length ps")
    case True
    then have d: "drop i ps = ps ! i # drop (Suc i) ps"
      by (simp add: Cons_nth_drop_Suc)
    show ?thesis
      using True 1 by (subst getProviderLoop.simps) (simp add: d Let_def)
  next
    case False
    then show ?thesis by (subst getProviderLoop.simps) simp
  qed
qed

lemma getProvider_find:
  "getProvider rt sel = find (\<lambda>p. processWhenClause (provider_when p) sel) (providers rt)"
  by (simp add: getProvider_def getProviderLoop_find)

text \<open>
  Claim C3.  \<open>getProvider\<close> goes through the providers of the resource type in their
  declared order and returns the first one whose when clause holds for the selected
  options: it is undefined exactly when no provider's clause holds, and the provider it
  returns stands at a position before which no provider's clause holds.
\<close>

theorem getProvider_first_match:
  "getProvider rt sel = find (\<lambda>p. processWhenClause (provider_when p) sel) (providers rt)
   \<and> (getProvider rt sel = None \<longleftrightarrow>
        (\<forall>p\<in>set (providers rt). \<not> processWhenClause (provider_when p) sel))
   \<and> (\<forall>p. getProvider rt sel = Some p \<longleftrightarrow>
        (\<exists>i<length (providers rt). providers rt ! i = p
            \<and> processWhenClause (provider_when p) sel
            \<and> (\<forall>j<i. \<not> processWhenClause (provider_when (providers rt ! j)) sel)))"
  by (simp add: getProvider_find find_None_iff find_Some_iff) blast

lemma okButtonLoop_find:
  "okButtonLoop rules sel =
     map_option okb_value (find (\<lambda>r. processWhenClause (okb_when r) sel) rules)"
  by (induction rules) simp_all

lemma okButtonLoop_None:
  "okButtonLoop rules sel = None \<longleftrightarrow>
     (\<forall>r\<in>set rules. \<not> processWhenClause (okb_when r) sel)"
  by (induction rules) simp_all

text \<open>
  Claim C10.  \<open>getOkButtonText\<close> always returns a string, never undefined; when the
  resource type has no rules for the button text, or no rule's when clause holds for the
  selected options, the string is the default text \<open>Select\<close>.
\<close>

theorem getOkButtonText_defined:
  "(\<exists>s. getOkButtonText rt sel = Some s)
   \<and> ((okButtonText rt = None
        \<or> (\<exists>rules. okButtonText rt = Some rules
              \<and> (\<forall>r\<in>set rules. \<not> processWhenClause (okb_when r) sel)))
       \<longrightarrow> getOkButtonText rt sel = Some ''Select'')"
  by (auto simp: getOkButtonText_def loc_select_def okButtonLoop_None [symmetric]
           split: option.splits)

text \<open>
  Claim C1 on four inputs: both clauses selected, one clause missing, the literal in upper
  case, and no when clause.
\<close>

theorem processWhenClause_spec_witness:
  "processWhenClause (Some ''a=1 && b=2'') [pick ''a'' ''1'', pick ''b'' ''2'']
   \<and> \<not> processWhenClause (Some ''a=1&&b=2'') [pick ''a'' ''1'']
   \<and> processWhenClause (Some ''TRUE'') []
   \<and> processWhenClause None []"
proof -
  have l1: "toLowerCase ''a=1 && b=2'' \<noteq> ''true''" and l2: "toLowerCase ''a=1&&b=2'' \<noteq> ''true''"
    and l3: "toLowerCase ''TRUE'' = ''true''"
    by code_simp+
  have c1: "splitAnd (removeWhitespace ''a=1 && b=2'') = [''a=1'', ''b=2'']"
    and c2: "splitAnd (removeWhitespace ''a=1&&b=2'') = [''a=1'', ''b=2'']"
    by code_simp+
  have f: "formatSelected (pick ''a'' ''1'') = ''a=1''" "formatSelected (pick ''b'' ''2'') = ''b=2''"
    by (simp_all add: formatSelected_def pick_def)
  show ?thesis
    using processWhenClause_spec [of "Some ''a=1 && b=2''" "[pick ''a'' ''1'', pick ''b'' ''2'']"]
      processWhenClause_spec [of "Some ''a=1&&b=2''" "[pick ''a'' ''1'']"]
      processWhenClause_spec [of "Some ''TRUE''" "[]"]
      processWhenClause_spec [of None "[]"]
    by (simp add: l1 l2 l3 c1 c2 f)
qed

text \<open>
  Claim C2 as first stated, for all when clauses, fails for the clauses \<open>&a=1\<close> and
  \<open>b=2&\<close>: joined in this order the result is true for the selection of option
  \<open>&a\<close> with value \<open>1\<close> and option \<open>b\<close> with value \<open>2&\<close>, joined in the
  other order it is false.
\<close>

theorem processWhenClause_permute_counterexample:
  "joinWith ''&&'' [''&a=1'', ''b=2&''] = ''&a=1&&b=2&''
   \<and> joinWith ''&&'' [''b=2&'', ''&a=1''] = ''b=2&&&&a=1''
   \<and> processWhenClause (Some ''&a=1&&b=2&'') [pick ''&a'' ''1'', pick ''b'' ''2&'']
   \<and> \<not> processWhenClause (Some ''b=2&&&&a=1'') [pick ''&a'' ''1'', pick ''b'' ''2&'']"
proof -
  have l1: "toLowerCase ''&a=1&&b=2&'' \<noteq> ''true''" and l2: "toLowerCase ''b=2&&&&a=1'' \<noteq> ''true''"
    by code_simp+
  have c1: "splitAnd (removeWhitespace ''&a=1&&b=2&'') = [''&a=1'', ''b=2&'']"
    and c2: "splitAnd (removeWhitespace ''b=2&&&&a=1'') = [''b=2'', '''', ''a=1'']"
    by code_simp+
  have f: "formatSelected (pick ''&a'' ''1'') = ''&a=1''" "formatSelected (pick ''b'' ''2&'') = ''b=2&''"
    by (simp_all add: formatSelected_def pick_def)
  show ?thesis
    by (simp add: processWhenClause_Some l1 l2 c1 c2 f)
qed

text \<open>
  Claim C2, as amended, on the clauses \<open>a=1\<close> and \<open>b=2\<close>, for every list of
  selected options.
\<close>

theorem processWhenClause_permute_witness:
  "mset [''a=1'', ''b=2''] = mset [''b=2'', ''a=1'']
   \<and> CHR ''&'' \<notin> set ''a=1'' \<and> CHR ''&'' \<notin> set ''b=2''
   \<and> (\<forall>X. processWhenClause (Some ''a=1&&b=2'') X = processWhenClause (Some ''b=2&&a=1'') X)"
proof -
  have p: "mset [''a=1'', ''b=2''] = mset [''b=2'', ''a=1'']" by simp
  have a: "\<forall>c\<in>set [''a=1'', ''b=2'']. CHR ''&'' \<notin> set c" by simp
  have "processWhenClause (Some ''a=1&&b=2'') X = processWhenClause (Some ''b=2&&a=1'') X" for X
    using processWhenClause_permute [OF p a, of X] by simp
  then show ?thesis
    using p by simp
qed

text \<open>Claim C3 on a resource type with two providers that both always match.\<close>

theorem getProvider_first_match_witness:
  "getProvider twoAlwaysTrue [] = Some (sampleProvider (Command ''first''))
   \<and> processWhenClause (provider_when (sampleProvider (Command ''second''))) []"
proof -
  have t: "processWhenClause (Some ''true'') []"
    by code_simp
  have "getProvider twoAlwaysTrue [] =
          find (\<lambda>p. processWhenClause (provider_when p) []) (providers twoAlwaysTrue)"
    using getProvider_first_match [of twoAlwaysTrue "[]"] by blast
  then show ?thesis
    using t by (simp add: twoAlwaysTrue_def sampleResourceType_def sampleProvider_def)
qed

text \<open>Claim C10 on a resource type whose only rule needs the selection \<open>a=1\<close>.\<close>

theorem getOkButtonText_defined_witness:
  "getOkButtonText twoAlwaysTrue [] = Some ''Select''
   \<and> getOkButtonText twoAlwaysTrue [pick ''a'' ''1''] = Some ''Deploy''"
proof -
  have n: "\<not> processWhenClause (Some ''a=1'') []"
    by code_simp
  have "\<exists>rules. okButtonText twoAlwaysTrue = Some rules
          \<and> (\<forall>r\<in>set rules. \<not> processWhenClause (okb_when r) [])"
    using n by (simp add: twoAlwaysTrue_def sampleResourceType_def)
  then have "getOkButtonText twoAlwaysTrue [] = Some ''Select''"
    using getOkButtonText_defined [of twoAlwaysTrue "[]"] by blast
  moreover have "getOkButtonText twoAlwaysTrue [pick ''a'' ''1''] = Some ''Deploy''"
    by code_simp
  ultimately show ?thesis by simp
qed

section \<open>Properties of the validation\<close>

lemma forEachIndexed_mono:
  assumes "\<And>x n e. set e \<subseteq> set (body x n e)"
  shows "set s \<subseteq> set (forEachIndexed body xs idx s)"
proof (induction xs arbitrary: idx s)
  case Nil
  show ?case by simp
next
  case (Cons x xs)
  have "set s \<subseteq> set (body x idx s)" by (rule assms)
  also have "\<dots> \<subseteq> set (forEachIndexed body xs (idx + 1) (body x idx s))" by (rule Cons.IH)
  finally show ?case by simp
qed

lemma forEachIndexed_member:
  assumes mono: "\<And>x n e. set e \<subseteq> set (body x n e)"
    and k: "k < length xs"
    and m: "\<And>e. m \<in> set (body (xs ! k) (idx + k) e)"
  shows "m \<in> set (forEachIndexed body xs idx s)"
  using k m
proof (induction xs arbitrary: idx s k)
  case Nil
  then show ?case by simp
next
  case (Cons x xs)
  show ?case
  proof (cases k)
    case 0
    then have "m \<in> set (body x idx s)" using Cons.prems(2) [of s] by simp
    then show ?thesis
      using forEachIndexed_mono [of body "body x idx s" xs "idx + 1", OF mono] by auto
  next
    case (Suc k')
    then have "k' < length xs" using Cons.prems(1) by simp
    moreover have "\<And>e. m \<in> set (body (xs ! k') ((idx + 1) + k') e)"
      using Cons.prems(2) Suc by simp
    ultimately have "m \<in> set (forEachIndexed body xs (idx + 1) (body x idx s))"
      by (rule Cons.IH)
    then show ?thesis by simp
  qed
qed

lemma validateNameDisplayName_mono:
  "set e \<subseteq> set (validateNameDisplayName n d ty pos e)"
  by (auto simp: validateNameDisplayName_def Let_def)

lemma dupeLoop_eq:
  "dupeLoop vs i j acc =
     acc @ map Suc (filter (\<lambda>k. ov_name (vs ! i) = ov_name (vs ! k)
                              \<or> ov_displayName (vs ! i) = ov_displayName (vs ! k))
                      [j..<length vs])"
proof (induction vs i j acc rule: dupeLoop.induct)
  case (1 vs i j acc)
  show ?case
  proof (cases "j < length vs")
    case True
    then have u: "[j..<length vs] = j # [j + 1..<length vs]"
      by (simp add: upt_conv_Cons)
    show ?thesis
      using True 1 by (subst dupeLoop.simps) (simp add: u)
  next
    case False
    then show ?thesis by (subst dupeLoop.simps) simp
  qed
qed

lemma uniqueLoop_mono: "set e \<subseteq> set (uniqueLoop vs pos i e)"
proof (induction vs pos i e rule: uniqueLoop.induct)
  case (1 vs pos i e)
  show ?case
  proof (cases "i < length vs")
    case True
    let ?e' = "(if ov_name (vs ! i) \<noteq> [] \<and> ov_displayName (vs ! i) \<noteq> [] then
             (let dupePositions = dupeLoop vs i (i + 1) []
              in if length dupePositions \<noteq> 0
                 then e @ [dupeMessage i dupePositions pos]
                 else e)
           else e)"
    have "set e \<subseteq> set ?e'" by (auto simp: Let_def)
    also have "\<dots> \<subseteq> set (uniqueLoop vs pos (i + 1) ?e')"
      using 1 [OF True] .
    also have "uniqueLoop vs pos (i + 1) ?e' = uniqueLoop vs pos i e"
      using True by (subst (2) uniqueLoop.simps) simp
    finally show ?thesis .
  next
    case False
    then show ?thesis by (subst uniqueLoop.simps) simp
  qed
qed

lemma uniqueLoop_member:
  assumes "i0 \<le> i" "i < length vs" "ov_name (vs ! i) \<noteq> []" "ov_displayName (vs ! i) \<noteq> []"
    and "dupeLoop vs i (i + 1) [] \<noteq> []"
  shows "dupeMessage i (dupeLoop vs i (i + 1) []) pos \<in> set (uniqueLoop vs pos i0 e)"
  using assms
proof (induction vs pos i0 e rule: uniqueLoop.induct)
  case (1 vs pos i0 e)
  have lt: "i0 < length vs" using 1(2,3) by simp
  let ?e' = "(if ov_name (vs ! i0) \<noteq> [] \<and> ov_displayName (vs ! i0) \<noteq> [] then
             (let dupePositions = dupeLoop vs i0 (i0 + 1) []
              in if length dupePositions \<noteq> 0
                 then e @ [dupeMessage i0 dupePositions pos]
                 else e)
           else e)"
  have unf: "uniqueLoop vs pos i0 e = uniqueLoop vs pos (i0 + 1) ?e'"
    using lt by (subst uniqueLoop.simps) simp
  show ?case
  proof (cases "i0 = i")
    case True
    then have "dupeMessage i (dupeLoop vs i (i + 1) []) pos \<in> set ?e'"
      using 1(4,5,6) by (simp add: Let_def)
    then show ?thesis
      unfolding unf using uniqueLoop_mono [of ?e' vs pos "i0 + 1"] by blast
  next
    case False
    then have "i0 + 1 \<le> i" using 1(2) by simp
    then show ?thesis
      unfolding unf using 1(1) [OF lt] 1(3,4,5,6) by blast
  qed
qed

lemma validateResourceTypeOption_mono:
  "set e \<subseteq> set (validateResourceTypeOption opt pos e)"
proof -
  let ?e1 = "validateNameDisplayName (opt_name opt) (opt_displayName opt) ''option'' pos e"
  have a: "set e \<subseteq> set ?e1" by (rule validateNameDisplayName_mono)
  show ?thesis
  proof (cases "opt_values opt = []")
    case True
    then show ?thesis using a by (auto simp: validateResourceTypeOption_def Let_def)
  next
    case False
    let ?body = "\<lambda>optionValue optionValueIndex.
                          validateNameDisplayName (ov_name optionValue) (ov_displayName optionValue)
                            ''option value''
                            (pos @ '', option value index: ''
                               @ toDecimal optionValueIndex @ '' '')"
    have "set ?e1 \<subseteq> set (forEachIndexed ?body (opt_values opt) 1 ?e1)"
      by (rule forEachIndexed_mono) (rule validateNameDisplayName_mono)
    also have "\<dots> \<subseteq> set (uniqueLoop (opt_values opt) pos 0 (forEachIndexed ?body (opt_values opt) 1 ?e1))"
      by (rule uniqueLoop_mono)
    finally show ?thesis
      using a False by (auto simp: validateResourceTypeOption_def Let_def)
  qed
qed

lemma validateResourceTypeOption_member:
  assumes "i < length (opt_values opt)"
    and "ov_name (opt_values opt ! i) \<noteq> []" "ov_displayName (opt_values opt ! i) \<noteq> []"
    and "dupeLoop (opt_values opt) i (i + 1) [] \<noteq> []"
  shows "dupeMessage i (dupeLoop (opt_values opt) i (i + 1) []) pos
           \<in> set (validateResourceTypeOption opt pos e)"
proof -
  have ne: "opt_values opt \<noteq> []" using assms(1) by auto
  show ?thesis
    using uniqueLoop_member [OF _ assms, of 0] ne
    by (simp add: validateResourceTypeOption_def Let_def)
qed

lemma foldl_mono:
  assumes "\<And>e x. set e \<subseteq> set (F e x)"
  shows "set e \<subseteq> set (foldl F e xs)"
proof (induction xs arbitrary: e)
  case Nil
  show ?case by simp
next
  case (Cons x xs)
  have "set e \<subseteq> set (F e x)" by (rule assms)
  also have "\<dots> \<subseteq> set (foldl F (F e x) xs)" by (rule Cons.IH)
  finally show ?case by simp
qed

lemma validateProvider_mono:
  "set e \<subseteq> set (validateProvider tools pos p idx e)"
  unfolding validateProvider_def Let_def
  by (rule order_trans [OF _ foldl_mono]) auto

lemma validateProviders_mono:
  "set e \<subseteq> set (validateProviders tools rt pos e)"
  unfolding validateProviders_def
  using forEachIndexed_mono [of "validateProvider tools pos" e "providers rt" 1,
      OF validateProvider_mono]
  by auto


lemma optionsLoop_mono:
  "set e \<subseteq> set (forEachIndexed
                 (\<lambda>option optionIndex.
                    validateResourceTypeOption option
                      (pos @ '', option index: '' @ toDecimal optionIndex @ '' ''))
                 opts idx e)"
  by (rule forEachIndexed_mono) (rule validateResourceTypeOption_mono)

lemma validateResourceType_mono:
  "set e \<subseteq> set (validateResourceType tools rt pos e)"
proof -
  let ?e1 = "validateNameDisplayName (rt_name rt) (rt_displayName rt) ''resource type'' pos e"
  let ?e2 = "(if (case icon rt of None \<Rightarrow> True | Some ic \<Rightarrow> dark ic = [] \<or> light ic = [])
                then ?e1 @ [''Icon for resource type is not specified properly. '' @ pos @ '' '']
                else ?e1)"
  let ?e3 = "forEachIndexed
                 (\<lambda>option optionIndex.
                    validateResourceTypeOption option
                      (pos @ '', option index: '' @ toDecimal optionIndex @ '' ''))
                 (options rt) 1 ?e2"
  have "set e \<subseteq> set ?e1" by (rule validateNameDisplayName_mono)
  also have "\<dots> \<subseteq> set ?e2" by auto
  also have "\<dots> \<subseteq> set ?e3" by (rule optionsLoop_mono)
  also have "\<dots> \<subseteq> set (validateProviders tools rt pos ?e3)" by (rule validateProviders_mono)
  finally show ?thesis by (simp add: validateResourceType_def Let_def)
qed

lemma validateResourceType_member:
  assumes k: "k < length (options rt)"
    and m: "\<And>e. m \<in> set (validateResourceTypeOption (options rt ! k)
                (pos @ '', option index: '' @ toDecimal (1 + k) @ '' '') e)"
  shows "m \<in> set (validateResourceType tools rt pos e)"
proof -
  let ?e1 = "validateNameDisplayName (rt_name rt) (rt_displayName rt) ''resource type'' pos e"
  let ?e2 = "(if (case icon rt of None \<Rightarrow> True | Some ic \<Rightarrow> dark ic = [] \<or> light ic = [])
                then ?e1 @ [''Icon for resource type is not specified properly. '' @ pos @ '' '']
                else ?e1)"
  let ?body = "\<lambda>option optionIndex.
                    validateResourceTypeOption option
                      (pos @ '', option index: '' @ toDecimal optionIndex @ '' '')"
  have "m \<in> set (forEachIndexed ?body (options rt) 1 ?e2)"
    using k m by (intro forEachIndexed_member validateResourceTypeOption_mono)
  then have "m \<in> set (validateProviders tools rt pos (forEachIndexed ?body (options rt) 1 ?e2))"
    using validateProviders_mono by blast
  then show ?thesis by (simp add: validateResourceType_def Let_def)
qed

lemma validateResourceTypes_member:
  assumes r: "r < length rts"
    and m: "\<And>e. m \<in> set (validateResourceType tools (rts ! r)
                (''resource type index: '' @ toDecimal (1 + r)) e)"
  shows "m \<in> set (validateResourceTypes tools rts)"
proof -
  have ne: "rts \<noteq> []" using r by auto
  let ?body = "\<lambda>resourceType resourceTypeIndex.
                validateResourceType tools resourceType
                  (''resource type index: '' @ toDecimal resourceTypeIndex)"
  have "m \<in> set (forEachIndexed ?body rts 1 [])"
    using r m by (intro forEachIndexed_member validateResourceType_mono)
  then show ?thesis using ne by (simp add: validateResourceTypes_def)
qed

text \<open>
  Claim C6.  Let the option at position \<open>k\<close> of the resource type at position \<open>r\<close>
  have values \<open>i\<close> and \<open>j\<close>, \<open>i\<close> before \<open>j\<close>, with the same name or the same
  display name, both fields of value \<open>i\<close> being non-empty.  Then
  \<open>validateResourceTypes\<close> returns the message about values with the same name or
  display name that lists the position \<open>i + 1\<close> and the positions, counted from 1, of
  all later values in conflict with value \<open>i\<close>; the position \<open>j + 1\<close> is among them.
\<close>

theorem validateResourceTypes_duplicates:
  assumes r: "r < length rts"
    and k: "k < length (options (rts ! r))"
    and vs: "vs = opt_values (options (rts ! r) ! k)"
    and ij: "i < j" "j < length vs"
    and named: "ov_name (vs ! i) \<noteq> []" "ov_displayName (vs ! i) \<noteq> []"
    and same: "ov_name (vs ! i) = ov_name (vs ! j)
               \<or> ov_displayName (vs ! i) = ov_displayName (vs ! j)"
    and dupes: "dupes = map Suc (filter (\<lambda>n. ov_name (vs ! i) = ov_name (vs ! n)
                                           \<or> ov_displayName (vs ! i) = ov_displayName (vs ! n))
                                   [i + 1..<length vs])"
  shows "j + 1 \<in> set dupes
         \<and> ''Option values with same name or display name are found at the following positions: ''
             @ toDecimal (i + 1) @ '', '' @ joinWith '','' (map toDecimal dupes) @ ''.''
             @ (''resource type index: '' @ toDecimal (r + 1)
                  @ '', option index: '' @ toDecimal (k + 1) @ '' '') @ '' ''
           \<in> set (validateResourceTypes getToolByName rts)"
proof -
  have d: "dupeLoop vs i (i + 1) [] = dupes"
    by (simp add: dupeLoop_eq dupes)
  have j: "j + 1 \<in> set dupes"
    using ij same by (auto simp: dupes)
  then have ne: "dupeLoop vs i (i + 1) [] \<noteq> []"
    using d by auto
  have i: "i < length (opt_values (options (rts ! r) ! k))"
    using ij vs by simp
  let ?pos = "''resource type index: '' @ toDecimal (1 + r)"
  let ?opos = "?pos @ '', option index: '' @ toDecimal (1 + k) @ '' ''"
  have "\<And>e. dupeMessage i dupes ?opos
          \<in> set (validateResourceTypeOption (options (rts ! r) ! k) ?opos e)"
    using validateResourceTypeOption_member [OF i] named ne d unfolding vs by metis
  then have "\<And>e. dupeMessage i dupes ?opos \<in> set (validateResourceType getToolByName (rts ! r) ?pos e)"
    using k by (intro validateResourceType_member)
  then have "dupeMessage i dupes ?opos \<in> set (validateResourceTypes getToolByName rts)"
    using r by (intro validateResourceTypes_member)
  then show ?thesis
    using j by (simp add: dupeMessage_def)
qed

text \<open>
  Claim C6 on the option with the values named \<open>x\<close> and \<open>x\<close>, displayed as
  \<open>X\<close> and \<open>Y\<close>: the message names the positions 1 and 2.
\<close>

theorem validateResourceTypes_duplicates_witness:
  "''Option values with same name or display name are found at the following positions: 1, 2.resource type index: 1, option index: 1  ''
     \<in> set (validateResourceTypes (\<lambda>tool. True) [twoAlwaysTrue])"
proof -
  let ?vs = "opt_values sampleOption"
  have o: "options ([twoAlwaysTrue] ! 0) ! 0 = sampleOption"
    by (simp add: twoAlwaysTrue_def sampleResourceType_def)
  have r: "(0::nat) < length [twoAlwaysTrue]" by simp
  have k: "(0::nat) < length (options ([twoAlwaysTrue] ! 0))"
    by (simp add: twoAlwaysTrue_def sampleResourceType_def)
  have vs: "?vs = opt_values (options ([twoAlwaysTrue] ! 0) ! 0)"
    by (simp add: twoAlwaysTrue_def sampleResourceType_def)
  have len: "length ?vs = 2" by (simp add: sampleOption_def)
  have ij: "(0::nat) < 1" "1 < length ?vs" by (simp_all add: len)
  have named: "ov_name (?vs ! 0) \<noteq> []" "ov_displayName (?vs ! 0) \<noteq> []"
    by (simp_all add: sampleOption_def)
  have same: "ov_name (?vs ! 0) = ov_name (?vs ! 1)
               \<or> ov_displayName (?vs ! 0) = ov_displayName (?vs ! 1)"
    by (simp add: sampleOption_def)
  have dupes: "[2] = map Suc (filter (\<lambda>n. ov_name (?vs ! 0) = ov_name (?vs ! n)
                                           \<or> ov_displayName (?vs ! 0) = ov_displayName (?vs ! n))
                                   [0 + 1..<length ?vs])"
    by (simp add: len sampleOption_def)
  have d1: "toDecimal 1 = ''1''" and d2: "toDecimal 2 = ''2''" by code_simp+
  have d0: "toDecimal (Suc 0) = ''1''" using d1 by simp
  show ?thesis
    using validateResourceTypes_duplicates [OF r k vs ij named same dupes, of "\<lambda>tool. True"]
    by (simp add: d0 d2)
qed

section \<open>Properties of the path rewriting\<close>

text \<open>
  Claim C4 says that each present field of a per-platform path object is rewritten to the
  extension path joined with its own value and that nothing else changes.  The code does so
  for \<open>darwin\<close> only.  With \<open>win32\<close> present, the joined path of \<open>win32\<close> is
  stored in \<open>darwin\<close> and \<open>win32\<close> keeps its relative value; with \<open>linux\<close>
  present, the whole object is replaced by one string, the joined path of \<open>linux\<close>.
\<close>

theorem updateNotebookPath_win32_linux:
  "updateNotebookPath join
     (Some \<lparr>notebook = Some (NotebookPaths
        \<lparr>darwin = Some ''d.ipynb'', win32 = Some ''w.ipynb'', linux = Some ''l.ipynb''\<rparr>)\<rparr>) ''/ext''
   = Some \<lparr>notebook = Some (NotebookString (join ''/ext'' ''l.ipynb''))\<rparr>
   \<and> updateNotebookPath join
     (Some \<lparr>notebook = Some (NotebookPaths
        \<lparr>darwin = Some ''d.ipynb'', win32 = Some ''w.ipynb'', linux = None\<rparr>)\<rparr>) ''/ext''
   = Some \<lparr>notebook = Some (NotebookPaths
        \<lparr>darwin = Some (join ''/ext'' ''w.ipynb''), win32 = Some ''w.ipynb'', linux = None\<rparr>)\<rparr>
   \<and> updateNotebookPath join
     (Some \<lparr>notebook = Some (NotebookPaths
        \<lparr>darwin = None, win32 = None, linux = Some ''l.ipynb''\<rparr>)\<rparr>) ''/ext''
   = Some \<lparr>notebook = Some (NotebookString (join ''/ext'' ''l.ipynb''))\<rparr>"
  by (simp add: updateNotebookPath_def whenTruthy_def)

section \<open>Properties of the dispatcher\<close>

text \<open>
  Claim C5, as amended.  When the first provider of a resource type is tagged as the Azure
  SQL VM wizard, \<open>startDeployment\<close> constructs and opens the wizard
  \<open>DeployAzureSQLVMWizard\<close> for this resource type, and when it is tagged as the Azure
  SQL DB wizard, the wizard \<open>DeployAzureSQLDBWizard\<close>.
\<close>

theorem startDeployment_azure_wizards:
  assumes "providers rt = p # ps"
  shows "(\<forall>w. provider_method p = AzureSQLVMWizard w \<longrightarrow>
            startDeployment (Some rt) = [OpenDeployAzureSQLVMWizard (Some rt)])
       \<and> (\<forall>w. provider_method p = AzureSQLDBWizard w \<longrightarrow>
            startDeployment (Some rt) = [OpenDeployAzureSQLDBWizard (Some rt)])"
  using assms by (simp add: startDeployment_def firstProvider_def)

text \<open>
  Claim C5, as amended, on resource types with one provider.
\<close>

theorem startDeployment_azure_wizards_witness:
  "startDeployment (Some (sampleResourceType [sampleProvider (AzureSQLVMWizard \<lparr>notebook = None\<rparr>)]))
     = [OpenDeployAzureSQLVMWizard
          (Some (sampleResourceType [sampleProvider (AzureSQLVMWizard \<lparr>notebook = None\<rparr>)]))]
   \<and> startDeployment (Some (sampleResourceType [sampleProvider (AzureSQLDBWizard \<lparr>notebook = None\<rparr>)]))
     = [OpenDeployAzureSQLDBWizard
          (Some (sampleResourceType [sampleProvider (AzureSQLDBWizard \<lparr>notebook = None\<rparr>)]))]"
proof -
  have a: "providers (sampleResourceType [sampleProvider (AzureSQLVMWizard \<lparr>notebook = None\<rparr>)])
             = sampleProvider (AzureSQLVMWizard \<lparr>notebook = None\<rparr>) # []"
    and b: "providers (sampleResourceType [sampleProvider (AzureSQLDBWizard \<lparr>notebook = None\<rparr>)])
             = sampleProvider (AzureSQLDBWizard \<lparr>notebook = None\<rparr>) # []"
    by (simp_all add: sampleResourceType_def)
  show ?thesis
    using startDeployment_azure_wizards [OF a] startDeployment_azure_wizards [OF b]
    by (simp add: sampleProvider_def)
qed

text \<open>
  Claim C5 as first stated fails: \<open>startDeploymentFromWizard\<close>, which takes the
  provider and the resource type, has no branch for the two Azure tags and opens nothing;
  \<open>startDeployment\<close> looks at the first provider only, so a resource type whose second
  provider has the Azure SQL VM tag gets the notebook wizard.
\<close>

theorem startDeploymentFromWizard_azure_counterexample:
  "startDeploymentFromWizard (sampleProvider (AzureSQLVMWizard \<lparr>notebook = None\<rparr>))
     (Some (sampleResourceType [sampleProvider (AzureSQLVMWizard \<lparr>notebook = None\<rparr>)])) = []
   \<and> startDeploymentFromWizard (sampleProvider (AzureSQLDBWizard \<lparr>notebook = None\<rparr>))
     (Some (sampleResourceType [sampleProvider (AzureSQLDBWizard \<lparr>notebook = None\<rparr>)])) = []
   \<and> startDeployment
       (Some (sampleResourceType [sampleProvider (Command ''c''),
                                  sampleProvider (AzureSQLVMWizard \<lparr>notebook = None\<rparr>)]))
     = [OpenNotebookWizard
         (Some (sampleResourceType [sampleProvider (Command ''c''),
                                    sampleProvider (AzureSQLVMWizard \<lparr>notebook = None\<rparr>)]))]"
  by (simp add: startDeploymentFromWizard_def startDeployment_def firstProvider_def
        sampleProvider_def sampleResourceType_def)

section \<open>Properties of the download\<close>

text \<open>
  Claim C7.  For every response whose status is none of 200, 301 and 302, \<open>download\<close>
  rejects with the message that holds the status code and the status message, and the
  files are as before: no file is created.
\<close>

theorem download_rejects_status:
  assumes "statusCode (httpsGet env url) \<noteq> 200"
    and "statusCode (httpsGet env url) \<noteq> 301"
    and "statusCode (httpsGet env url) \<noteq> 302"
  shows "download env url files =
           Some (Rejected (''Download failed, status code: ''
                             @ toDecimal (statusCode (httpsGet env url))
                             @ '', message: '' @ statusMessage (httpsGet env url)),
                 files)"
  using assms by (subst download.simps) (simp add: downloadError_def)

text \<open>
  Claim C7 on a response with status 404.
\<close>

theorem download_rejects_status_witness:
  "download (sampleEnv 404 ''Not Found'') ''https://example.com/files/report.pdf''
       {''/home/u/Downloads''}
     = Some (Rejected ''Download failed, status code: 404, message: Not Found'',
             {''/home/u/Downloads''})"
proof -
  have s: "statusCode (httpsGet (sampleEnv 404 ''Not Found'') ''https://example.com/files/report.pdf'') = 404"
    and m: "statusMessage (httpsGet (sampleEnv 404 ''Not Found'') ''https://example.com/files/report.pdf'') = ''Not Found''"
    by (simp_all add: sampleEnv_def)
  have d: "toDecimal 404 = ''404''" by code_simp
  show ?thesis
    using download_rejects_status [of "sampleEnv 404 ''Not Found''"
        "''https://example.com/files/report.pdf''" "{''/home/u/Downloads''}"]
    by (simp add: s m d)
qed

lemma probeLoop_first_free:
  assumes "\<not> existsIn (candidateName orig (c + n) @ ext)"
    and "\<forall>m<n. existsIn (candidateName orig (c + m) @ ext)"
  shows "probeLoop existsIn orig ext (candidateName orig c) (c + 1)
           = Some (candidateName orig (c + n))"
  using assms
proof (induction n arbitrary: c)
  case 0
  then show ?case by (subst probeLoop.simps) simp
next
  case (Suc n)
  have here: "existsIn (candidateName orig c @ ext)"
    using Suc.prems(2) [rule_format, of 0] by simp
  have next_name: "orig @ ''-'' @ toDecimal (c + 1) = candidateName orig (c + 1)"
    by (simp add: candidateName_def)
  have "probeLoop existsIn orig ext (candidateName orig (c + 1)) (c + 1 + 1)
          = Some (candidateName orig (c + 1 + n))"
  proof (rule Suc.IH)
    show "\<not> existsIn (candidateName orig (c + 1 + n) @ ext)"
      using Suc.prems(1) by simp
    show "\<forall>m<n. existsIn (candidateName orig (c + 1 + m) @ ext)"
      using Suc.prems(2) [rule_format, of "Suc _"] by simp
  qed
  then show ?case
    using here next_name by (subst probeLoop.simps) simp
qed

text \<open>
  Claim C8.  Let the response have status 200 and the writing succeed.  When the names
  \<open>name\<close>, \<open>name-1\<close>, ..., up to number \<open>k - 1\<close>, each with the extension,
  exist in the download folder and the one with number \<open>k\<close> does not, \<open>download\<close>
  resolves to that one: the first name in this order that does not exist.
\<close>

theorem download_first_unused_name:
  assumes ok: "statusCode (httpsGet env url) = 200"
    and folder: "folder = (if pathJoin env (homedir env) ''Downloads'' \<in> files
                           then pathJoin env (homedir env) ''Downloads'' else homedir env)"
    and ext: "ext = extname env url"
    and orig: "orig = basename env url ext"
    and taken: "\<forall>m<k. pathJoin env folder (candidateName orig m @ ext) \<in> files"
    and free: "pathJoin env folder (candidateName orig k @ ext) \<notin> files"
    and written: "writeError env (pathJoin env folder (candidateName orig k @ ext)) = None"
  shows "download env url files =
           Some (Resolved (pathJoin env folder (candidateName orig k @ ext)),
                 insert (pathJoin env folder (candidateName orig k @ ext)) files)"
proof -
  have "probeLoop (\<lambda>name. pathJoin env folder name \<in> files) orig ext (candidateName orig 0) (0 + 1)
          = Some (candidateName orig (0 + k))"
    using taken free by (intro probeLoop_first_free) simp_all
  then have p: "probeLoop (\<lambda>name. pathJoin env folder name \<in> files) orig ext orig 1
          = Some (candidateName orig k)"
    by (simp add: candidateName_def)
  have "saveResponse env url files =
           Some (Resolved (pathJoin env folder (candidateName orig k @ ext)),
                 insert (pathJoin env folder (candidateName orig k @ ext)) files)"
    using p written unfolding saveResponse_def Let_def folder [symmetric] ext [symmetric] orig [symmetric]
    by simp
  then show ?thesis
    using ok by (subst download.simps) simp
qed

text \<open>
  Claim C8 on a folder that holds \<open>report.pdf\<close>: the download resolves to
  \<open>report-1.pdf\<close>.
\<close>

theorem download_first_unused_name_witness:
  "download (sampleEnv 200 ''OK'') ''https://example.com/files/report.pdf''
       {''/home/u/Downloads'', ''/home/u/Downloads/report.pdf''}
     = Some (Resolved ''/home/u/Downloads/report-1.pdf'',
             {''/home/u/Downloads/report-1.pdf'', ''/home/u/Downloads'',
              ''/home/u/Downloads/report.pdf''})"
proof -
  let ?env = "sampleEnv 200 ''OK''"
  let ?url = "''https://example.com/files/report.pdf''"
  let ?files = "{''/home/u/Downloads'', ''/home/u/Downloads/report.pdf''}"
  have e: "sampleExtname ?url = ''.pdf''" by code_simp
  have b: "sampleBasename ?url ''.pdf'' = ''report''" by code_simp
  have d1: "toDecimal 1 = ''1''" by code_simp
  have d: "toDecimal (Suc 0) = ''1''" using d1 by simp
  have ok: "statusCode (httpsGet ?env ?url) = 200"
    by (simp add: sampleEnv_def)
  have folder: "''/home/u/Downloads'' =
      (if pathJoin ?env (homedir ?env) ''Downloads'' \<in> ?files
       then pathJoin ?env (homedir ?env) ''Downloads'' else homedir ?env)"
    by (simp add: sampleEnv_def)
  have ext: "''.pdf'' = extname ?env ?url"
    by (simp add: sampleEnv_def e)
  have orig: "''report'' = basename ?env ?url ''.pdf''"
    by (simp add: sampleEnv_def b)
  have taken: "\<forall>m<1. pathJoin ?env ''/home/u/Downloads'' (candidateName ''report'' m @ ''.pdf'') \<in> ?files"
    by (simp add: sampleEnv_def candidateName_def)
  have free: "pathJoin ?env ''/home/u/Downloads'' (candidateName ''report'' 1 @ ''.pdf'') \<notin> ?files"
    by (simp add: sampleEnv_def candidateName_def d)
  have written: "writeError ?env (pathJoin ?env ''/home/u/Downloads'' (candidateName ''report'' 1 @ ''.pdf'')) = None"
    by (simp add: sampleEnv_def)
  have n: "pathJoin ?env ''/home/u/Downloads'' (candidateName ''report'' 1 @ ''.pdf'')
             = ''/home/u/Downloads/report-1.pdf''"
    by (simp add: sampleEnv_def candidateName_def d)
  show ?thesis
    using download_first_unused_name [OF ok folder ext orig taken free written]
    unfolding n by simp
qed

section \<open>Properties of the loader\<close>

lemma reachable_single:
  "reachable s \<Longrightarrow> running s \<le> 1 \<and> (isLoading s \<longleftrightarrow> running s = 1)"
proof (induction rule: reachable.induct)
  case initial
  show ?case by (simp add: newLoader_def)
next
  case (called s)
  then show ?case by (auto simp: start_def)
next
  case (ticked s)
  then show ?case by (simp add: refreshTick_def)
next
  case (progressed s ns)
  then show ?case by (simp add: setNodes_def)
next
  case (finished s)
  then show ?case by (auto simp: finish_def)
qed

text \<open>
  Claim C9.  A call of \<open>start\<close> while the loader is loading returns the state as it
  is: the node list, the flag and the events fired are unchanged.  In every state the
  loader can reach, at most one load is running, and one is running exactly when the flag
  is set.
\<close>

theorem start_not_reentered:
  "(isLoading s \<longrightarrow> start s = s)
   \<and> (reachable s \<longrightarrow> running s \<le> 1 \<and> (isLoading s \<longleftrightarrow> running s = 1))"
  using reachable_single [of s] by (simp add: start_def)

text \<open>
  Claim C9 on the state after the first call of \<open>start\<close>: a second call changes
  nothing.
\<close>

theorem start_not_reentered_witness:
  "reachable (start (newLoader :: nat loader))
   \<and> isLoading (start (newLoader :: nat loader))
   \<and> start (start (newLoader :: nat loader)) = start newLoader
   \<and> running (start (start (newLoader :: nat loader))) = 1"
proof -
  have r: "reachable (start (newLoader :: nat loader))"
    by (intro reachable.called reachable.initial)
  have l: "isLoading (start (newLoader :: nat loader))"
    by (simp add: start_def newLoader_def)
  show ?thesis
    using start_not_reentered [of "start (newLoader :: nat loader)"] r l by simp
qed

end
